theory Spec2Isabelle
  imports Complex_Main "HOL-Library.Stream"
begin

section \<open>Numbers, vectors and constants\<close>

text \<open>
  The TypeScript \<^verbatim>\<open>number\<close> is modelled by \<^typ>\<open>real\<close>: arithmetic is exact, and
  the values NaN and the infinities of IEEE doubles do not exist in the model. Counters
  that the code only ever increments by one from zero (kills, deaths, ids) are \<^typ>\<open>nat\<close>.
\<close>

record Vec3 =
  vec_x :: real
  vec_y :: real
  vec_z :: real

definition mkVec3 :: "real \<Rightarrow> real \<Rightarrow> real \<Rightarrow> Vec3" where
  "mkVec3 a b c = \<lparr>vec_x = a, vec_y = b, vec_z = c\<rparr>"

definition Vec3_zero :: Vec3 where
  "Vec3_zero = mkVec3 0 0 0"





definition distanceTo :: "Vec3 \<Rightarrow> Vec3 \<Rightarrow> real" where
  "distanceTo u v =
     (let dx = vec_x u - vec_x v; dy = vec_y u - vec_y v; dz = vec_z u - vec_z v
      in sqrt (dx * dx + dy * dy + dz * dz))"

definition distanceToSq :: "Vec3 \<Rightarrow> Vec3 \<Rightarrow> real" where
  "distanceToSq u v =
     (let dx = vec_x u - vec_x v; dy = vec_y u - vec_y v; dz = vec_z u - vec_z v
      in dx * dx + dy * dy + dz * dz)"

subsection \<open>constants.ts\<close>

definition SPLASH_RADIUS :: real where "SPLASH_RADIUS = 3"
definition SPLASH_DAMAGE_FACTOR :: real where "SPLASH_DAMAGE_FACTOR = 0.5"
definition DIRECT_HIT_DAMAGE :: real where "DIRECT_HIT_DAMAGE = 20"
definition TANK_MAX_HP :: real where "TANK_MAX_HP = 100"
definition PROJECTILE_COLLISION_RADIUS :: real where "PROJECTILE_COLLISION_RADIUS = 0.5"
definition TANK_COLLISION_RADIUS :: real where "TANK_COLLISION_RADIUS = 2.5"
definition MAX_PLAYERS :: nat where "MAX_PLAYERS = 10"
definition MIN_PLAYERS :: nat where "MIN_PLAYERS = 2"
definition RESPAWN_DELAY :: real where "RESPAWN_DELAY = 4000"

section \<open>Input commands and the combatant (Player.ts)\<close>

text \<open>
  \<^verbatim>\<open>PhysicsInput\<close> is the part of a command that the kinematics read; \<^verbatim>\<open>InputCmd\<close>
  extends it. The desired turret yaw and gun pitch of a command are the fields
  \<open>in_turretYaw\<close> and \<open>in_gunPitch\<close> (the source calls them \<^verbatim>\<open>turretYaw\<close> and
  \<^verbatim>\<open>gunPitch\<close>, as it does the fields of the tank). The constant message tag
  \<^verbatim>\<open>type\<close> is left out.
\<close>

record PhysicsInput =
  forward :: bool
  backward :: bool
  turnLeft :: bool
  turnRight :: bool
  in_turretYaw :: real
  in_gunPitch :: real

record InputCmd = PhysicsInput +
  seq :: int
  fire :: bool
  stabilize :: bool
  timestamp :: real

record TankPhysicsState =
  position :: Vec3
  velocity :: Vec3
  bodyYaw :: real
  turretYaw :: real
  gunPitch :: real

record Player = TankPhysicsState +
  playerId :: nat
  nickname :: string
  hp :: real
  alive :: bool
  respawnTimer :: real
  reloadRemain :: real
  inputQueue :: "InputCmd list"
  lastProcessedSeq :: int
  lastInput :: "InputCmd option"
  kills :: nat
  deaths :: nat
  hits :: nat
  shots :: nat
  lastSpawnPositions :: "Vec3 list"
  isBot :: bool

text \<open>\<^verbatim>\<open>new Player(id, nickname)\<close> with the field initialisers of the class.\<close>

definition newPlayer :: "nat \<Rightarrow> string \<Rightarrow> Player" where
  "newPlayer i n =
     \<lparr>position = Vec3_zero, velocity = Vec3_zero, bodyYaw = 0, turretYaw = 0, gunPitch = 0,
      playerId = i, nickname = n, hp = TANK_MAX_HP, alive = True, respawnTimer = 0,
      reloadRemain = 0, inputQueue = [], lastProcessedSeq = 0, lastInput = None,
      kills = 0, deaths = 0, hits = 0, shots = 0, lastSpawnPositions = [], isBot = False\<rparr>"


text \<open>
  \<^verbatim>\<open>popInput\<close>: \<^verbatim>\<open>shift()\<close> takes the oldest queued command; on an empty queue
  the last command is replayed with \<^verbatim>\<open>fire\<close> overwritten; with neither, \<^verbatim>\<open>null\<close>.
\<close>

definition popInput :: "Player \<Rightarrow> InputCmd option \<times> Player" where
  "popInput p =
     (case inputQueue p of
        cmd # rest \<Rightarrow> (Some cmd, p\<lparr>inputQueue := rest, lastInput := Some cmd\<rparr>)
      | [] \<Rightarrow>
          (case lastInput p of
             Some li \<Rightarrow> (Some (li\<lparr>fire := False\<rparr>), p)
           | None \<Rightarrow> (None, p)))"

definition takeDamage :: "real \<Rightarrow> Player \<Rightarrow> bool \<times> Player" where
  "takeDamage amount p =
     (if \<not> alive p then (False, p)
      else
        let p1 = p\<lparr>hp := max 0 (hp p - amount)\<rparr>
        in if hp p1 \<le> 0
           then (True, p1\<lparr>alive := False, inputQueue := [], lastInput := None,
                         velocity := Vec3_zero\<rparr>)
           else (False, p1))"

text \<open>
  \<^verbatim>\<open>respawn(position)\<close>; the body yaw is drawn from \<^verbatim>\<open>Math.random()\<close>, whose
  value \<open>r\<close> is passed in.
\<close>

definition respawn :: "Vec3 \<Rightarrow> real \<Rightarrow> Player \<Rightarrow> Player" where
  "respawn pos r p =
     (let hist = lastSpawnPositions p @ [pos]
      in p\<lparr>position := pos, velocity := Vec3_zero, bodyYaw := r * pi * 2 - pi,
            turretYaw := 0, gunPitch := 0, hp := TANK_MAX_HP, alive := True,
            reloadRemain := 0, respawnTimer := 0,
            lastSpawnPositions := (if length hist > 5 then tl hist else hist)\<rparr>)"



definition resetStats :: "Player \<Rightarrow> Player" where
  "resetStats p = p\<lparr>kills := 0, deaths := 0, hits := 0, shots := 0\<rparr>"

section \<open>Kinematics (protocol.ts)\<close>








definition calculateSplashDamage :: "Vec3 \<Rightarrow> Vec3 \<Rightarrow> real" where
  "calculateSplashDamage hitPos targetPos =
     (let dist = distanceTo hitPos targetPos
      in if dist > SPLASH_RADIUS then 0
         else let falloff = 1 - dist / SPLASH_RADIUS
              in DIRECT_HIT_DAMAGE * falloff * SPLASH_DAMAGE_FACTOR)"

definition checkProjectileHit :: "Vec3 \<Rightarrow> Vec3 \<Rightarrow> real \<Rightarrow> real \<Rightarrow> bool" where
  "checkProjectileHit projPos targetPos projRadius targetRadius =
     (let distSq = distanceToSq projPos targetPos; combinedRadius = projRadius + targetRadius
      in distSq \<le> combinedRadius * combinedRadius)"

definition gaussianScore :: "real \<Rightarrow> real \<Rightarrow> real \<Rightarrow> real" where
  "gaussianScore v mean sigma = (let diff = v - mean in exp (- (diff * diff) / (2 * sigma * sigma)))"


section \<open>Terrain map queries (MapGenerator.ts)\<close>

record CoverNode =
  cover_position :: Vec3
  cover_radius :: real
  cover_height :: real

record SpawnZone =
  zone_id :: nat
  center :: Vec3
  zone_radius :: real

record GameMapData =
  width :: real
  depth :: real
  heightmap :: "real list"
  resolution :: nat
  covers :: "CoverNode list"
  spawnZones :: "SpawnZone list"
  seed :: real

text \<open>
  \<^verbatim>\<open>getHeightAt\<close>: bilinear interpolation, 0 outside the grid. The guard keeps the four
  reads inside a heightmap of \<open>resolution * resolution\<close> cells (the size \<^verbatim>\<open>generate\<close>
  allocates).
\<close>

definition getHeightAt :: "GameMapData \<Rightarrow> real \<Rightarrow> real \<Rightarrow> real" where
  "getHeightAt m x z =
     (let gx = ((x + width m / 2) / width m) * (real (resolution m) - 1);
          gz = ((z + depth m / 2) / depth m) * (real (resolution m) - 1);
          ix = \<lfloor>gx\<rfloor>;
          iz = \<lfloor>gz\<rfloor>;
          fx = gx - of_int ix;
          fz = gz - of_int iz;
          res = int (resolution m)
      in if ix < 0 \<or> ix \<ge> res - 1 \<or> iz < 0 \<or> iz \<ge> res - 1 then 0
         else
           let h00 = heightmap m ! nat (iz * res + ix);
               h10 = heightmap m ! nat (iz * res + ix + 1);
               h01 = heightmap m ! nat ((iz + 1) * res + ix);
               h11 = heightmap m ! nat ((iz + 1) * res + ix + 1);
               h0 = h00 + (h10 - h00) * fx;
               h1 = h01 + (h11 - h01) * fx
           in h0 + (h1 - h0) * fz)"

section \<open>Spawn selection (SpawnManager.ts)\<close>

definition SPAWN_CANDIDATE_COUNT :: nat where "SPAWN_CANDIDATE_COUNT = 20"
definition SPAWN_TOP_K :: nat where "SPAWN_TOP_K = 5"
definition IDEAL_SPAWN_DISTANCE :: real where "IDEAL_SPAWN_DISTANCE = 60"
definition SPAWN_DISTANCE_SIGMA :: real where "SPAWN_DISTANCE_SIGMA = 20"
definition COVER_SEARCH_RADIUS :: real where "COVER_SEARCH_RADIUS = 15"
definition SPAWN_COOLDOWN_RADIUS :: real where "SPAWN_COOLDOWN_RADIUS = 20"
definition SPAWN_WEIGHTS_distance :: real where "SPAWN_WEIGHTS_distance = 1.0"
definition SPAWN_WEIGHTS_los :: real where "SPAWN_WEIGHTS_los = 2.0"
definition SPAWN_WEIGHTS_cover :: real where "SPAWN_WEIGHTS_cover = 0.8"
definition SPAWN_WEIGHTS_flow :: real where "SPAWN_WEIGHTS_flow = 0.5"
definition SPAWN_WEIGHTS_recent :: real where "SPAWN_WEIGHTS_recent = 1.5"
definition maxRecentSpawns :: nat where "maxRecentSpawns = 20"

datatype error = TypeError

record SpawnManager =
  recentSpawns :: "Vec3 list"

definition isPointBetween :: "Vec3 \<Rightarrow> Vec3 \<Rightarrow> Vec3 \<Rightarrow> real \<Rightarrow> bool" where
  "isPointBetween from to point radius =
     (let dx = vec_x to - vec_x from;
          dz = vec_z to - vec_z from;
          len = sqrt (dx * dx + dz * dz)
      in if len < 0.001 then False
         else
           let t = ((vec_x point - vec_x from) * dx + (vec_z point - vec_z from) * dz) / (len * len)
           in if t < 0 \<or> t > 1 then False
              else
                let closestX = vec_x from + t * dx;
                    closestZ = vec_z from + t * dz;
                    dist = sqrt ((vec_x point - closestX)\<^sup>2 + (vec_z point - closestZ)\<^sup>2)
                in dist < radius)"

text \<open>The running minimum of the distance loop; \<open>None\<close> is the initial \<^verbatim>\<open>Infinity\<close>.\<close>

definition minDistStep :: "Vec3 \<Rightarrow> real option \<Rightarrow> Player \<Rightarrow> real option" where
  "minDistStep candidate minDist enemy =
     (let d = distanceTo candidate (position enemy)
      in case minDist of None \<Rightarrow> Some d | Some m \<Rightarrow> if d < m then Some d else Some m)"

definition scoreCandidate :: "SpawnManager \<Rightarrow> Vec3 \<Rightarrow> Player list \<Rightarrow> GameMapData \<Rightarrow> real" where
  "scoreCandidate sm candidate enemies m =
     (let s_dist =
            (if length enemies > 0
             then (case foldl (minDistStep candidate) None enemies of
                     Some minDist \<Rightarrow>
                       gaussianScore minDist IDEAL_SPAWN_DISTANCE SPAWN_DISTANCE_SIGMA
                         * SPAWN_WEIGHTS_distance
                   | None \<Rightarrow> 0)
             else SPAWN_WEIGHTS_distance);
          losCount =
            length (filter (\<lambda>enemy.
                distanceTo candidate (position enemy) < 30 \<and>
                \<not> list_ex (\<lambda>cover.
                     isPointBetween candidate (position enemy) (cover_position cover)
                       (cover_radius cover)) (covers m)) enemies);
          nearbyCovers =
            filter (\<lambda>c. distanceTo candidate (cover_position c) < COVER_SEARCH_RADIUS) (covers m);
          flowDist = sqrt (vec_x candidate * vec_x candidate + vec_z candidate * vec_z candidate);
          tooRecent =
            list_ex (\<lambda>p. distanceTo candidate p < SPAWN_COOLDOWN_RADIUS) (recentSpawns sm);
          score4 = s_dist - real losCount * SPAWN_WEIGHTS_los
                     + real (min (length nearbyCovers) 3) * SPAWN_WEIGHTS_cover
                     + gaussianScore flowDist 80 30 * SPAWN_WEIGHTS_flow
      in if tooRecent then score4 - SPAWN_WEIGHTS_recent else score4)"

text \<open>
  One candidate of \<^verbatim>\<open>generateCandidates\<close>; \<open>a\<close> and \<open>b\<close> are the two values that
  \<^verbatim>\<open>Math.random()\<close> returns, first for the angle, then for the radius.
\<close>

definition makeCandidate :: "GameMapData \<Rightarrow> SpawnZone \<Rightarrow> real \<Rightarrow> real \<Rightarrow> Vec3" where
  "makeCandidate m zone a b =
     (let angle = a * pi * 2;
          r = b * zone_radius zone;
          x = vec_x (center zone) + cos angle * r;
          z = vec_z (center zone) + sin angle * r;
          clampedX = max (- width m / 2 + 5) (min (width m / 2 - 5) x);
          clampedZ = max (- depth m / 2 + 5) (min (depth m / 2 - 5) z);
          y = getHeightAt m clampedX clampedZ
      in mkVec3 clampedX y clampedZ)"

text \<open>
  \<^verbatim>\<open>Math.random()\<close> is a stream of values still to be drawn: a call takes the head and
  leaves the tail.
\<close>

fun zoneCandidates :: "GameMapData \<Rightarrow> SpawnZone \<Rightarrow> nat \<Rightarrow> real stream \<Rightarrow> Vec3 list \<times> real stream" where
  "zoneCandidates m zone 0 rs = ([], rs)"
| "zoneCandidates m zone (Suc n) rs =
     (let c = makeCandidate m zone (shd rs) (shd (stl rs));
          (cs, rs') = zoneCandidates m zone n (stl (stl rs))
      in (c # cs, rs'))"

fun allZoneCandidates :: "GameMapData \<Rightarrow> nat \<Rightarrow> SpawnZone list \<Rightarrow> real stream \<Rightarrow> Vec3 list \<times> real stream" where
  "allZoneCandidates m k [] rs = ([], rs)"
| "allZoneCandidates m k (zone # zones) rs =
     (let (cs, rs1) = zoneCandidates m zone k rs;
          (ds, rs2) = allZoneCandidates m k zones rs1
      in (cs @ ds, rs2))"

definition generateCandidates :: "GameMapData \<Rightarrow> real stream \<Rightarrow> Vec3 list \<times> real stream" where
  "generateCandidates m rs =
     (let pointsPerZone = nat \<lceil>real SPAWN_CANDIDATE_COUNT / real (length (spawnZones m))\<rceil>
      in allZoneCandidates m pointsPerZone (spawnZones m) rs)"

text \<open>
  \<^verbatim>\<open>selectSpawnPoint\<close>. \<open>topCandidates\<close> is its scoring, sorting and slicing: the sort
  with comparator \<^verbatim>\<open>b.score - a.score\<close> is a stable sort by descending score.
  \<^verbatim>\<open>topK[i].point\<close> throws a TypeError when \<open>i\<close> is not an index of \<open>topK\<close> (in
  particular when there is no candidate at all). Only the id of the spawning player is
  read.
\<close>

definition topCandidates ::
  "SpawnManager \<Rightarrow> Player list \<Rightarrow> GameMapData \<Rightarrow> Vec3 list \<Rightarrow> (Vec3 \<times> real) list" where
  "topCandidates sm aliveEnemies m candidates =
     (let scored = map (\<lambda>point. (point, scoreCandidate sm point aliveEnemies m)) candidates;
          sorted = sort_key (\<lambda>c. - snd c) scored
      in take SPAWN_TOP_K sorted)"

definition selectSpawnPoint ::
  "SpawnManager \<Rightarrow> nat \<Rightarrow> Player list \<Rightarrow> GameMapData \<Rightarrow> real stream
     \<Rightarrow> error + (Vec3 \<times> SpawnManager \<times> real stream)" where
  "selectSpawnPoint sm pid enemies m rs =
     (let aliveEnemies = filter (\<lambda>e. alive e \<and> playerId e \<noteq> pid) enemies;
          (candidates, rs1) = generateCandidates m rs;
          topK = topCandidates sm aliveEnemies m candidates;
          i = \<lfloor>shd rs1 * real (length topK)\<rfloor>
      in if i < 0 \<or> i \<ge> int (length topK) then Inl TypeError
         else
           let selected = fst (topK ! nat i);
               recent = recentSpawns sm @ [selected];
               recent' = (if length recent > maxRecentSpawns then tl recent else recent)
           in Inr (selected, sm\<lparr>recentSpawns := recent'\<rparr>, stl rs1))"

definition SpawnManager_reset :: "SpawnManager \<Rightarrow> SpawnManager" where
  "SpawnManager_reset sm = sm\<lparr>recentSpawns := []\<rparr>"


section \<open>Projectiles (Projectile.ts) and events\<close>

record Projectile =
  projId :: nat
  shooterId :: nat
  proj_position :: Vec3
  proj_velocity :: Vec3
  ttl :: real
  active :: bool





datatype GameEvent =
    FireEvent nat Vec3 Vec3 nat nat
  | HitEvent nat nat Vec3 real
  | ExplodeEvent nat Vec3 real
  | DeathEvent nat nat string Vec3
  | RespawnEvent nat Vec3

text \<open>
  The arguments are, in the order of the interfaces of protocol.ts:
  \<open>FireEvent shooterId muzzlePos muzzleDir projectileId serverTick\<close>,
  \<open>HitEvent projectileId targetId hitPos damage\<close>, \<open>ExplodeEvent projectileId pos radius\<close>,
  \<open>DeathEvent victimId killerId reason pos\<close>, \<open>RespawnEvent playerId spawnPos\<close>.
\<close>

fun isDeathOf :: "nat \<Rightarrow> GameEvent \<Rightarrow> bool" where
  "isDeathOf v (DeathEvent victim killer reason pos) = (victim = v)"
| "isDeathOf v _ = False"

fun isKillBy :: "nat \<Rightarrow> GameEvent \<Rightarrow> bool" where
  "isKillBy k (DeathEvent victim killer reason pos) = (killer = k)"
| "isKillBy k _ = False"

fun isRespawnOf :: "nat \<Rightarrow> GameEvent \<Rightarrow> bool" where
  "isRespawnOf v (RespawnEvent pl pos) = (pl = v)"
| "isRespawnOf v _ = False"

section \<open>The world (GameWorld.ts)\<close>

text \<open>
  The two \<^verbatim>\<open>Map\<close>s of the world are lists in insertion order, which is the order
  in which the loops of the source visit them; \<open>players\<close> is keyed by \<open>playerId\<close>,
  \<open>projectiles\<close> by \<open>projId\<close>. An entry of the respawn queue holds the id of the
  player object it refers to, and its timer. \<open>randoms\<close> are the values that
  \<^verbatim>\<open>Math.random()\<close> will return.
\<close>

record GameWorld =
  currentTick :: nat
  snapshotId :: nat
  players :: "Player list"
  projectiles :: "Projectile list"
  gameMap :: GameMapData
  spawnManager :: SpawnManager
  nextProjectileId :: nat
  pendingEvents :: "GameEvent list"
  respawnQueue :: "(nat \<times> real) list"
  randoms :: "real stream"

definition getPlayer :: "GameWorld \<Rightarrow> nat \<Rightarrow> Player option" where
  "getPlayer w i = find (\<lambda>p. playerId p = i) (players w)"

definition modifyPlayer :: "nat \<Rightarrow> (Player \<Rightarrow> Player) \<Rightarrow> Player list \<Rightarrow> Player list" where
  "modifyPlayer i f ps = map (\<lambda>p. if playerId p = i then f p else p) ps"

definition putPlayer :: "Player \<Rightarrow> GameWorld \<Rightarrow> GameWorld" where
  "putPlayer p w = w\<lparr>players := modifyPlayer (playerId p) (\<lambda>_. p) (players w)\<rparr>"

text \<open>\<^verbatim>\<open>Map.set\<close>: an existing key keeps its place, a new key goes to the end.\<close>

fun mapSet :: "('a \<Rightarrow> nat) \<Rightarrow> 'a \<Rightarrow> 'a list \<Rightarrow> 'a list" where
  "mapSet key v [] = [v]"
| "mapSet key v (u # us) = (if key u = key v then v # us else u # mapSet key v us)"

definition getProjectile :: "GameWorld \<Rightarrow> nat \<Rightarrow> Projectile option" where
  "getProjectile w i = find (\<lambda>q. projId q = i) (projectiles w)"

definition putProjectile :: "Projectile \<Rightarrow> GameWorld \<Rightarrow> GameWorld" where
  "putProjectile q w =
     w\<lparr>projectiles := map (\<lambda>u. if projId u = projId q then q else u) (projectiles w)\<rparr>"

definition pushEvent :: "GameEvent \<Rightarrow> GameWorld \<Rightarrow> GameWorld" where
  "pushEvent e w = w\<lparr>pendingEvents := pendingEvents w @ [e]\<rparr>"

text \<open>
  \<^verbatim>\<open>handleDeath(victim, killerId)\<close>; \<open>victim\<close> is the victim's record as it stands
  at the call (after \<^verbatim>\<open>takeDamage\<close>).
\<close>

definition handleDeath :: "Player \<Rightarrow> nat \<Rightarrow> GameWorld \<Rightarrow> GameWorld" where
  "handleDeath victim killerId w =
     (let ps1 = modifyPlayer (playerId victim) (\<lambda>p. p\<lparr>deaths := deaths p + 1\<rparr>) (players w);
          ps2 = modifyPlayer killerId (\<lambda>p. p\<lparr>kills := kills p + 1\<rparr>) ps1
      in w\<lparr>players := ps2,
            pendingEvents := pendingEvents w
               @ [DeathEvent (playerId victim) killerId ''killed'' (position victim)],
            respawnQueue := respawnQueue w @ [(playerId victim, RESPAWN_DELAY)]\<rparr>)"

text \<open>One iteration of the splash loop of \<^verbatim>\<open>handleProjectileExplode\<close>, for the player
  with id \<open>pid\<close>.\<close>

definition explodeStep :: "Projectile \<Rightarrow> nat option \<Rightarrow> GameWorld \<Rightarrow> nat \<Rightarrow> GameWorld" where
  "explodeStep proj directHitTargetId w pid =
     (case getPlayer w pid of
        None \<Rightarrow> w
      | Some player \<Rightarrow>
          if \<not> alive player then w
          else if playerId player = shooterId proj then w
          else if Some (playerId player) = directHitTargetId then w
          else
            let splashDamage = calculateSplashDamage (proj_position proj) (position player)
            in if splashDamage > 0
               then
                 let (died, player') = takeDamage splashDamage player;
                     w1 = putPlayer player' w
                 in if died then handleDeath player' (shooterId proj) w1 else w1
               else w)"

definition handleProjectileExplode :: "Projectile \<Rightarrow> nat option \<Rightarrow> GameWorld \<Rightarrow> GameWorld" where
  "handleProjectileExplode proj directHitTargetId w =
     foldl (explodeStep proj directHitTargetId)
       (pushEvent (ExplodeEvent (projId proj) (proj_position proj) SPLASH_RADIUS) w)
       (map playerId (players w))"

definition handleDirectHit :: "Projectile \<Rightarrow> nat \<Rightarrow> GameWorld \<Rightarrow> GameWorld" where
  "handleDirectHit proj targetId w =
     (let proj' = proj\<lparr>active := False\<rparr>;
          w1 = pushEvent (HitEvent (projId proj) targetId (proj_position proj) DIRECT_HIT_DAMAGE)
                 (putProjectile proj' w);
          w2 = w1\<lparr>players := modifyPlayer (shooterId proj) (\<lambda>p. p\<lparr>hits := hits p + 1\<rparr>) (players w1)\<rparr>
      in case getPlayer w2 targetId of
           None \<Rightarrow> w2
         | Some target \<Rightarrow>
             let (died, target') = takeDamage DIRECT_HIT_DAMAGE target;
                 w3 = putPlayer target' w2;
                 w4 = (if died then handleDeath target' (shooterId proj) w3 else w3)
             in handleProjectileExplode proj' (Some targetId) w4)"

definition collideStep :: "GameWorld \<Rightarrow> nat \<Rightarrow> GameWorld" where
  "collideStep w i =
     (case getProjectile w i of
        None \<Rightarrow> w
      | Some proj \<Rightarrow>
          if \<not> active proj then w
          else
            (case find (\<lambda>player.
                     alive player \<and> playerId player \<noteq> shooterId proj \<and>
                     checkProjectileHit (proj_position proj) (position player)
                       PROJECTILE_COLLISION_RADIUS TANK_COLLISION_RADIUS) (players w) of
               None \<Rightarrow> w
             | Some target \<Rightarrow> handleDirectHit proj (playerId target) w))"

definition checkAllCollisions :: "GameWorld \<Rightarrow> GameWorld" where
  "checkAllCollisions w = foldl collideStep w (map projId (projectiles w))"

text \<open>
  \<^verbatim>\<open>updateRespawnQueue\<close>: every timer is decremented; the entries that reach 0 leave
  the queue and their players respawn, in queue order.
\<close>

definition placePlayer :: "nat \<Rightarrow> GameWorld \<Rightarrow> error + (Vec3 \<times> GameWorld)" where
  "placePlayer pid w =
     (let enemies = filter (\<lambda>p. playerId p \<noteq> pid) (players w)
      in case selectSpawnPoint (spawnManager w) pid enemies (gameMap w) (randoms w) of
           Inl e \<Rightarrow> Inl e
         | Inr (spawnPos, sm, rs) \<Rightarrow>
             Inr (spawnPos,
                  w\<lparr>players := modifyPlayer pid (respawn spawnPos (shd rs)) (players w),
                    spawnManager := sm, randoms := stl rs\<rparr>))"





subsection \<open>Input, movement and firing\<close>








subsection \<open>Tank against tank\<close>




subsection \<open>Projectile flight, ground and cover\<close>






subsection \<open>The tick\<close>


definition World_addPlayer :: "Player \<Rightarrow> GameWorld \<Rightarrow> error + GameWorld" where
  "World_addPlayer player w =
     (case placePlayer (playerId player) (w\<lparr>players := mapSet playerId player (players w)\<rparr>) of
        Inl e \<Rightarrow> Inl e
      | Inr (spawnPos, w') \<Rightarrow> Inr w')"

definition World_removePlayer :: "nat \<Rightarrow> GameWorld \<Rightarrow> GameWorld" where
  "World_removePlayer pid w =
     w\<lparr>players := filter (\<lambda>p. playerId p \<noteq> pid) (players w),
       respawnQueue := filter (\<lambda>(i, timer). i \<noteq> pid) (respawnQueue w)\<rparr>"


subsection \<open>Observing one combatant in the world\<close>

definition aliveIn :: "nat \<Rightarrow> GameWorld \<Rightarrow> bool" where
  "aliveIn v w \<longleftrightarrow> (case getPlayer w v of Some p \<Rightarrow> alive p | None \<Rightarrow> False)"

definition deadIn :: "nat \<Rightarrow> GameWorld \<Rightarrow> bool" where
  "deadIn v w \<longleftrightarrow> (case getPlayer w v of Some p \<Rightarrow> \<not> alive p | None \<Rightarrow> False)"

definition hpOf :: "nat \<Rightarrow> GameWorld \<Rightarrow> real" where
  "hpOf v w = (case getPlayer w v of Some p \<Rightarrow> hp p | None \<Rightarrow> 0)"

definition deathsOf :: "nat \<Rightarrow> GameWorld \<Rightarrow> nat" where
  "deathsOf v w = (case getPlayer w v of Some p \<Rightarrow> deaths p | None \<Rightarrow> 0)"

definition killsOf :: "nat \<Rightarrow> GameWorld \<Rightarrow> nat" where
  "killsOf v w = (case getPlayer w v of Some p \<Rightarrow> kills p | None \<Rightarrow> 0)"

text \<open>The death events of victim \<open>v\<close> among the pending events, the number of death
  events that name \<open>s\<close> as the killer, and the respawn-queue entries of \<open>v\<close>.\<close>

definition deathEventsOf :: "nat \<Rightarrow> GameWorld \<Rightarrow> GameEvent list" where
  "deathEventsOf v w = filter (isDeathOf v) (pendingEvents w)"

definition killCount :: "nat \<Rightarrow> GameWorld \<Rightarrow> nat" where
  "killCount s w = length (filter (isKillBy s) (pendingEvents w))"

definition queueOf :: "nat \<Rightarrow> GameWorld \<Rightarrow> (nat \<times> real) list" where
  "queueOf v w = filter (\<lambda>e. fst e = v) (respawnQueue w)"

text \<open>
  \<open>undisturbed v w w'\<close>: between \<open>w\<close> and \<open>w'\<close> nothing has happened to combatant
  \<open>v\<close> but, possibly, hits and kills credited to projectiles it fired earlier: every
  other field of its record is the same, and so are its death events and its
  respawn-queue entries.
\<close>

definition statsMasked :: "Player \<Rightarrow> Player" where
  "statsMasked p = p\<lparr>kills := 0, hits := 0\<rparr>"

definition undisturbed :: "nat \<Rightarrow> GameWorld \<Rightarrow> GameWorld \<Rightarrow> bool" where
  "undisturbed v w w' \<longleftrightarrow>
     map_option statsMasked (getPlayer w' v) = map_option statsMasked (getPlayer w v) \<and>
     deathEventsOf v w' = deathEventsOf v w \<and>
     queueOf v w' = queueOf v w"



text \<open>
  What the spawn selection needs in order not to throw: a map with at least one spawn
  zone (\<^verbatim>\<open>generate\<close> always makes eight), and values of \<^verbatim>\<open>Math.random()\<close> in
  \<open>[0, 1)\<close>.
\<close>

definition canSpawn :: "GameWorld \<Rightarrow> bool" where
  "canSpawn w \<longleftrightarrow>
     spawnZones (gameMap w) \<noteq> [] \<and> (\<forall>r \<in> sset (randoms w). 0 \<le> r \<and> r < 1)"


text \<open>
  What one hit-resolution step can do to a combatant \<open>v\<close> that exists in the world:
  leave it dead (it was not alive), leave it alive (possibly with less health), or
  kill it. \<open>killsTracked s\<close>: the kills counter of \<open>s\<close> has grown by exactly the
  number of new death events that name \<open>s\<close> as the killer.
\<close>

definition survived :: "nat \<Rightarrow> GameWorld \<Rightarrow> GameWorld \<Rightarrow> bool" where
  "survived v w w' \<longleftrightarrow>
     aliveIn v w \<and> aliveIn v w' \<and> deathsOf v w' = deathsOf v w \<and>
     deathEventsOf v w' = deathEventsOf v w \<and> queueOf v w' = queueOf v w"

definition died :: "nat \<Rightarrow> GameWorld \<Rightarrow> GameWorld \<Rightarrow> bool" where
  "died v w w' \<longleftrightarrow>
     aliveIn v w \<and> deadIn v w' \<and> hpOf v w' = 0 \<and> deathsOf v w' = deathsOf v w + 1 \<and>
     (\<exists>k pos. deathEventsOf v w' = deathEventsOf v w @ [DeathEvent v k ''killed'' pos]) \<and>
     queueOf v w' = queueOf v w @ [(v, RESPAWN_DELAY)]"

definition stillDead :: "nat \<Rightarrow> GameWorld \<Rightarrow> GameWorld \<Rightarrow> bool" where
  "stillDead v w w' \<longleftrightarrow>
     deadIn v w \<and> deadIn v w' \<and> hpOf v w' = hpOf v w \<and> deathsOf v w' = deathsOf v w \<and>
     deathEventsOf v w' = deathEventsOf v w \<and> queueOf v w' = queueOf v w"

definition hitStep :: "nat \<Rightarrow> GameWorld \<Rightarrow> GameWorld \<Rightarrow> bool" where
  "hitStep v w w' \<longleftrightarrow> stillDead v w w' \<or> survived v w w' \<or> died v w w'"

definition killsTracked :: "nat \<Rightarrow> GameWorld \<Rightarrow> GameWorld \<Rightarrow> bool" where
  "killsTracked s w w' \<longleftrightarrow>
     getPlayer w' s \<noteq> None \<and> killsOf s w' + killCount s w = killsOf s w + killCount s w'"


text \<open>\<open>lifeKept v\<close>: a step that neither hurts nor revives \<open>v\<close> and adds no death event
  that concerns it (movement, firing, projectile flight, reloading).\<close>

definition lifeKept :: "nat \<Rightarrow> GameWorld \<Rightarrow> GameWorld \<Rightarrow> bool" where
  "lifeKept v w w' \<longleftrightarrow>
     (getPlayer w' v = None) = (getPlayer w v = None) \<and>
     aliveIn v w' = aliveIn v w \<and> hpOf v w' = hpOf v w \<and> deathsOf v w' = deathsOf v w \<and>
     killsOf v w' = killsOf v w \<and> deathEventsOf v w' = deathEventsOf v w \<and>
     queueOf v w' = queueOf v w \<and> killCount v w' = killCount v w"




definition hitBase :: "Projectile \<Rightarrow> nat \<Rightarrow> GameWorld \<Rightarrow> GameWorld" where
  "hitBase proj targetId w =
     (let w1 = pushEvent (HitEvent (projId proj) targetId (proj_position proj) DIRECT_HIT_DAMAGE)
                 (putProjectile (proj\<lparr>active := False\<rparr>) w)
      in w1\<lparr>players := modifyPlayer (shooterId proj) (\<lambda>p. p\<lparr>hits := hits p + 1\<rparr>) (players w1)\<rparr>)"


definition tickStart :: "GameWorld \<Rightarrow> GameWorld" where
  "tickStart w = w\<lparr>pendingEvents := [], currentTick := currentTick w + 1\<rparr>"

definition queueTicked :: "real \<Rightarrow> GameWorld \<Rightarrow> GameWorld" where
  "queueTicked dt w =
     w\<lparr>respawnQueue := filter (\<lambda>(pid, timer). \<not> timer \<le> 0)
                          (map (\<lambda>(pid, timer). (pid, timer - dt)) (respawnQueue w))\<rparr>"

definition placed :: "nat \<Rightarrow> Vec3 \<Rightarrow> real \<Rightarrow> SpawnManager \<Rightarrow> real stream \<Rightarrow> GameWorld \<Rightarrow> GameWorld" where
  "placed pid pos r sm rs w =
     w\<lparr>players := modifyPlayer pid (respawn pos r) (players w), spawnManager := sm, randoms := rs\<rparr>"







section \<open>Verified properties\<close>

subsection \<open>Turret and gun limits\<close>









subsection \<open>Input replay\<close>

text \<open>
  C4. With an empty queue and a last-applied command \<open>li\<close>, \<^verbatim>\<open>popInput\<close> returns
  \<open>li\<close> with \<open>fire\<close> false and every other field as in \<open>li\<close>, and leaves the
  combatant as it was; with a non-empty queue it returns the oldest queued command as it
  is (and records it as the last-applied one).
\<close>

theorem popInput_replays_last_or_pops_oldest:
  "(inputQueue p = [] \<and> lastInput p = Some li \<longrightarrow>
      (\<exists>c. popInput p = (Some c, p) \<and> c = li\<lparr>fire := False\<rparr> \<and> fire c = False \<and>
           forward c = forward li \<and> backward c = backward li \<and> turnLeft c = turnLeft li \<and>
           turnRight c = turnRight li \<and> in_turretYaw c = in_turretYaw li \<and>
           in_gunPitch c = in_gunPitch li \<and> seq c = seq li \<and> timestamp c = timestamp li \<and>
           stabilize c = stabilize li)) \<and>
   (inputQueue p = cmd # rest \<longrightarrow>
      popInput p = (Some cmd, p\<lparr>inputQueue := rest, lastInput := Some cmd\<rparr>))"
  by (simp add: popInput_def)

theorem popInput_replays_last_or_pops_oldest_witness:
  "(let li = \<lparr>forward = True, backward = False, turnLeft = True, turnRight = False,
              in_turretYaw = 1, in_gunPitch = 0.25, seq = 7, fire = True, stabilize = False,
              timestamp = 1234\<rparr>;
        p = (newPlayer 1 ''A'')\<lparr>lastInput := Some li\<rparr>;
        q = (newPlayer 2 ''B'')\<lparr>inputQueue := [li, li\<lparr>seq := 8\<rparr>]\<rparr>
    in inputQueue p = [] \<and> lastInput p = Some li \<and>
       popInput p = (Some (li\<lparr>fire := False\<rparr>), p) \<and>
       inputQueue q = [li, li\<lparr>seq := 8\<rparr>] \<and>
       popInput q = (Some li, q\<lparr>inputQueue := [li\<lparr>seq := 8\<rparr>], lastInput := Some li\<rparr>))"
proof -
  let ?li = "\<lparr>forward = True, backward = False, turnLeft = True, turnRight = False,
              in_turretYaw = 1, in_gunPitch = 0.25, seq = 7, fire = True, stabilize = False,
              timestamp = 1234\<rparr>"
  let ?p = "(newPlayer 1 ''A'')\<lparr>lastInput := Some ?li\<rparr>"
  let ?q = "(newPlayer 2 ''B'')\<lparr>inputQueue := [?li, ?li\<lparr>seq := 8\<rparr>]\<rparr>"
  have hp: "inputQueue ?p = [] \<and> lastInput ?p = Some ?li" by (simp add: newPlayer_def)
  have hq: "inputQueue ?q = ?li # [?li\<lparr>seq := 8\<rparr>]" by simp
  from popInput_replays_last_or_pops_oldest[of ?p ?li] hp
  have 1: "popInput ?p = (Some (?li\<lparr>fire := False\<rparr>), ?p)" by auto
  from popInput_replays_last_or_pops_oldest[of ?q _ ?li "[?li\<lparr>seq := 8\<rparr>]"] hq
  have 2: "popInput ?q = (Some ?li, ?q\<lparr>inputQueue := [?li\<lparr>seq := 8\<rparr>], lastInput := Some ?li\<rparr>)"
    by blast
  show ?thesis unfolding Let_def using hp hq 1 2 by simp
qed

subsection \<open>Splash damage\<close>

text \<open>
  C5. \<^verbatim>\<open>calculateSplashDamage\<close> is 0 when the two positions are at least
  \<open>SPLASH_RADIUS\<close> apart, is \<open>DIRECT_HIT_DAMAGE * SPLASH_DAMAGE_FACTOR\<close> when they
  coincide, and never grows when the distance grows.
\<close>

theorem calculateSplashDamage_falloff:
  "(distanceTo h t \<ge> SPLASH_RADIUS \<longrightarrow> calculateSplashDamage h t = 0) \<and>
   (distanceTo h t = 0 \<longrightarrow> calculateSplashDamage h t = DIRECT_HIT_DAMAGE * SPLASH_DAMAGE_FACTOR) \<and>
   (distanceTo h t \<le> distanceTo h' t' \<longrightarrow> calculateSplashDamage h' t' \<le> calculateSplashDamage h t)"
  unfolding calculateSplashDamage_def Let_def SPLASH_RADIUS_def DIRECT_HIT_DAMAGE_def
    SPLASH_DAMAGE_FACTOR_def
  by (auto simp: field_simps)

lemma sqrt_9: "sqrt 9 = 3"
  using real_sqrt_abs[of 3] by simp

theorem calculateSplashDamage_falloff_witness:
  "distanceTo (mkVec3 0 0 0) (mkVec3 3 0 0) \<ge> SPLASH_RADIUS \<and>
   calculateSplashDamage (mkVec3 0 0 0) (mkVec3 3 0 0) = 0 \<and>
   distanceTo (mkVec3 1 2 3) (mkVec3 1 2 3) = 0 \<and>
   calculateSplashDamage (mkVec3 1 2 3) (mkVec3 1 2 3) = 10 \<and>
   distanceTo (mkVec3 1 2 3) (mkVec3 1 2 3) \<le> distanceTo (mkVec3 0 0 0) (mkVec3 3 0 0) \<and>
   calculateSplashDamage (mkVec3 0 0 0) (mkVec3 3 0 0)
     \<le> calculateSplashDamage (mkVec3 1 2 3) (mkVec3 1 2 3)"
proof -
  have far: "distanceTo (mkVec3 0 0 0) (mkVec3 3 0 0) = 3"
    by (simp add: distanceTo_def mkVec3_def sqrt_9)
  have near: "distanceTo (mkVec3 1 2 3) (mkVec3 1 2 3) = 0"
    by (simp add: distanceTo_def mkVec3_def)
  show ?thesis
    using calculateSplashDamage_falloff[of "mkVec3 0 0 0" "mkVec3 3 0 0"]
      calculateSplashDamage_falloff[of "mkVec3 1 2 3" "mkVec3 1 2 3" "mkVec3 0 0 0" "mkVec3 3 0 0"]
    by (simp add: far near SPLASH_RADIUS_def DIRECT_HIT_DAMAGE_def SPLASH_DAMAGE_FACTOR_def)
qed

subsection \<open>Reading and writing one player\<close>

lemma find_modifyPlayer:
  assumes "\<And>q. playerId q = i \<Longrightarrow> playerId (f q) = i"
  shows "find (\<lambda>p. playerId p = v) (modifyPlayer i f ps) =
         map_option (\<lambda>p. if playerId p = i then f p else p) (find (\<lambda>p. playerId p = v) ps)"
  by (induction ps) (auto simp: modifyPlayer_def assms)

lemma find_playerId: "find (\<lambda>p. playerId p = v) ps = Some p \<Longrightarrow> playerId p = v"
  by (induction ps) (auto split: if_splits)

lemma getPlayer_id: "getPlayer w v = Some p \<Longrightarrow> playerId p = v"
  unfolding getPlayer_def by (rule find_playerId)

lemma getPlayer_players_cong: "players w' = players w \<Longrightarrow> getPlayer w' v = getPlayer w v"
  by (simp add: getPlayer_def)

lemma getPlayer_putPlayer:
  "getPlayer (putPlayer p w) v =
     (if playerId p = v then map_option (\<lambda>_. p) (getPlayer w v) else getPlayer w v)"
  unfolding getPlayer_def putPlayer_def
  by (cases "find (\<lambda>p. playerId p = v) (players w)")
     (auto simp: find_modifyPlayer dest: find_playerId)

lemma getPlayer_modify:
  assumes "\<And>q. playerId q = i \<Longrightarrow> playerId (f q) = i"
  shows "getPlayer (w\<lparr>players := modifyPlayer i f (players w)\<rparr>) v =
         map_option (\<lambda>p. if playerId p = i then f p else p) (getPlayer w v)"
  unfolding getPlayer_def using find_modifyPlayer[of i f v "players w"] assms by simp

lemma takeDamage_id: "playerId (snd (takeDamage a p)) = playerId p"
  by (simp add: takeDamage_def Let_def)


lemma pushEvent_simps [simp]:
  "players (pushEvent e w) = players w"
  "pendingEvents (pushEvent e w) = pendingEvents w @ [e]"
  "respawnQueue (pushEvent e w) = respawnQueue w"
  "projectiles (pushEvent e w) = projectiles w"
  "gameMap (pushEvent e w) = gameMap w"
  "randoms (pushEvent e w) = randoms w"
  "spawnManager (pushEvent e w) = spawnManager w"
  "getPlayer (pushEvent e w) v = getPlayer w v"
  by (simp_all add: pushEvent_def getPlayer_def)

lemma putPlayer_simps [simp]:
  "pendingEvents (putPlayer p w) = pendingEvents w"
  "respawnQueue (putPlayer p w) = respawnQueue w"
  "projectiles (putPlayer p w) = projectiles w"
  "gameMap (putPlayer p w) = gameMap w"
  "randoms (putPlayer p w) = randoms w"
  "spawnManager (putPlayer p w) = spawnManager w"
  by (simp_all add: putPlayer_def)

lemma putProjectile_simps [simp]:
  "players (putProjectile q w) = players w"
  "pendingEvents (putProjectile q w) = pendingEvents w"
  "respawnQueue (putProjectile q w) = respawnQueue w"
  "gameMap (putProjectile q w) = gameMap w"
  "randoms (putProjectile q w) = randoms w"
  "spawnManager (putProjectile q w) = spawnManager w"
  "getPlayer (putProjectile q w) v = getPlayer w v"
  by (simp_all add: putProjectile_def getPlayer_def)

lemma handleDeath_simps [simp]:
  "pendingEvents (handleDeath victim k w) =
     pendingEvents w @ [DeathEvent (playerId victim) k ''killed'' (position victim)]"
  "respawnQueue (handleDeath victim k w) = respawnQueue w @ [(playerId victim, RESPAWN_DELAY)]"
  "projectiles (handleDeath victim k w) = projectiles w"
  "gameMap (handleDeath victim k w) = gameMap w"
  "randoms (handleDeath victim k w) = randoms w"
  "spawnManager (handleDeath victim k w) = spawnManager w"
  by (simp_all add: handleDeath_def Let_def)

lemma getPlayer_handleDeath:
  "getPlayer (handleDeath victim k w) v =
     map_option (\<lambda>p. (if playerId p = k then (\<lambda>q. q\<lparr>kills := kills q + 1\<rparr>) else id)
                      ((if playerId p = playerId victim then (\<lambda>q. q\<lparr>deaths := deaths q + 1\<rparr>) else id) p))
       (getPlayer w v)"
  unfolding getPlayer_def handleDeath_def Let_def
  by (cases "find (\<lambda>p. playerId p = v) (players w)") (auto simp: find_modifyPlayer)

subsection \<open>A combatant that is not alive is left alone\<close>

lemma statsMasked_simps [simp]:
  "statsMasked (q\<lparr>kills := n\<rparr>) = statsMasked q"
  "statsMasked (q\<lparr>hits := n\<rparr>) = statsMasked q"
  by (simp_all add: statsMasked_def)

lemma statsMasked_fields:
  assumes "statsMasked p' = statsMasked p"
  shows "alive p' = alive p" "hp p' = hp p" "deaths p' = deaths p" "playerId p' = playerId p"
    "velocity p' = velocity p" "inputQueue p' = inputQueue p" "lastInput p' = lastInput p"
    "shots p' = shots p" "position p' = position p"
proof -
  have "alive (statsMasked p') = alive (statsMasked p)" using assms by simp
  then show "alive p' = alive p" by (simp add: statsMasked_def)
  have "hp (statsMasked p') = hp (statsMasked p)" using assms by simp
  then show "hp p' = hp p" by (simp add: statsMasked_def)
  have "deaths (statsMasked p') = deaths (statsMasked p)" using assms by simp
  then show "deaths p' = deaths p" by (simp add: statsMasked_def)
  have "playerId (statsMasked p') = playerId (statsMasked p)" using assms by simp
  then show "playerId p' = playerId p" by (simp add: statsMasked_def)
  have "velocity (statsMasked p') = velocity (statsMasked p)" using assms by simp
  then show "velocity p' = velocity p" by (simp add: statsMasked_def)
  have "inputQueue (statsMasked p') = inputQueue (statsMasked p)" using assms by simp
  then show "inputQueue p' = inputQueue p" by (simp add: statsMasked_def)
  have "lastInput (statsMasked p') = lastInput (statsMasked p)" using assms by simp
  then show "lastInput p' = lastInput p" by (simp add: statsMasked_def)
  have "shots (statsMasked p') = shots (statsMasked p)" using assms by simp
  then show "shots p' = shots p" by (simp add: statsMasked_def)
  have "position (statsMasked p') = position (statsMasked p)" using assms by simp
  then show "position p' = position p" by (simp add: statsMasked_def)
qed


lemma undisturbed_trans: "undisturbed v a b \<Longrightarrow> undisturbed v b c \<Longrightarrow> undisturbed v a c"
  by (simp add: undisturbed_def)

lemma undisturbed_player:
  assumes "undisturbed v w w'" "getPlayer w v = Some p"
  shows "\<exists>p'. getPlayer w' v = Some p' \<and> statsMasked p' = statsMasked p"
  using assms unfolding undisturbed_def by (cases "getPlayer w' v") auto


lemma undisturbed_putPlayer: "playerId p \<noteq> v \<Longrightarrow> undisturbed v w (putPlayer p w)"
  by (simp add: undisturbed_def getPlayer_putPlayer deathEventsOf_def queueOf_def)

lemma undisturbed_handleDeath:
  assumes "playerId victim \<noteq> v"
  shows "undisturbed v w (handleDeath victim k w)"
proof -
  have "map_option statsMasked (getPlayer (handleDeath victim k w) v) = map_option statsMasked (getPlayer w v)"
  proof (cases "getPlayer w v")
    case None
    then show ?thesis by (simp add: getPlayer_handleDeath)
  next
    case (Some z)
    then have "playerId z = v" by (rule getPlayer_id)
    with Some assms show ?thesis by (simp add: getPlayer_handleDeath)
  qed
  then show ?thesis using assms by (simp add: undisturbed_def deathEventsOf_def queueOf_def)
qed




lemma undisturbed_pushEvent_other: "\<not> isDeathOf v e \<Longrightarrow> undisturbed v w (pushEvent e w)"
  by (simp add: undisturbed_def deathEventsOf_def queueOf_def)


lemma undisturbed_putPlayer_same:
  "getPlayer w (playerId p) = Some p \<Longrightarrow> undisturbed v w (putPlayer p w)"
  by (cases "playerId p = v") (auto simp: undisturbed_def getPlayer_putPlayer deathEventsOf_def queueOf_def)

lemma handleDirectHit_alt:
  "handleDirectHit proj targetId w =
     (case getPlayer (hitBase proj targetId w) targetId of
        None \<Rightarrow> hitBase proj targetId w
      | Some target \<Rightarrow>
          handleProjectileExplode (proj\<lparr>active := False\<rparr>) (Some targetId)
            (if fst (takeDamage DIRECT_HIT_DAMAGE target)
             then handleDeath (snd (takeDamage DIRECT_HIT_DAMAGE target)) (shooterId proj)
                    (putPlayer (snd (takeDamage DIRECT_HIT_DAMAGE target)) (hitBase proj targetId w))
             else putPlayer (snd (takeDamage DIRECT_HIT_DAMAGE target)) (hitBase proj targetId w)))"
  unfolding handleDirectHit_def hitBase_def Let_def
  by (simp split: option.split prod.split)

lemma hitBase_simps [simp]:
  "pendingEvents (hitBase proj t w) =
     pendingEvents w @ [HitEvent (projId proj) t (proj_position proj) DIRECT_HIT_DAMAGE]"
  "respawnQueue (hitBase proj t w) = respawnQueue w"
  "gameMap (hitBase proj t w) = gameMap w"
  "randoms (hitBase proj t w) = randoms w"
  "spawnManager (hitBase proj t w) = spawnManager w"
  by (simp_all add: hitBase_def Let_def)

lemma getPlayer_hitBase:
  "getPlayer (hitBase proj t w) v =
     map_option (\<lambda>p. if playerId p = shooterId proj then p\<lparr>hits := hits p + 1\<rparr> else p) (getPlayer w v)"
proof -
  let ?w1 = "pushEvent (HitEvent (projId proj) t (proj_position proj) DIRECT_HIT_DAMAGE)
                 (putProjectile (proj\<lparr>active := False\<rparr>) w)"
  have "getPlayer (?w1\<lparr>players := modifyPlayer (shooterId proj) (\<lambda>p. p\<lparr>hits := hits p + 1\<rparr>) (players ?w1)\<rparr>) v
        = map_option (\<lambda>p. if playerId p = shooterId proj then p\<lparr>hits := hits p + 1\<rparr> else p) (getPlayer ?w1 v)"
    by (rule getPlayer_modify) simp
  then show ?thesis by (simp add: hitBase_def Let_def)
qed

lemma hitBase_undisturbed: "undisturbed v w (hitBase proj t w)"
proof -
  have "map_option statsMasked (getPlayer (hitBase proj t w) v) = map_option statsMasked (getPlayer w v)"
    by (cases "getPlayer w v") (simp_all add: getPlayer_hitBase)
  then show ?thesis by (simp add: undisturbed_def deathEventsOf_def queueOf_def)
qed

lemma takeDamage_dead: "\<not> alive p \<Longrightarrow> takeDamage a p = (False, p)"
  by (simp add: takeDamage_def)


lemma collideStep_cases:
  "collideStep w i = w \<or>
   (\<exists>proj target. getProjectile w i = Some proj \<and> active proj \<and>
      find (\<lambda>player. alive player \<and> playerId player \<noteq> shooterId proj \<and>
              checkProjectileHit (proj_position proj) (position player)
                PROJECTILE_COLLISION_RADIUS TANK_COLLISION_RADIUS) (players w) = Some target \<and>
      collideStep w i = handleDirectHit proj (playerId target) w)"
  unfolding collideStep_def by (auto split: option.splits)



subsection \<open>Outcomes of hit resolution for one combatant\<close>

lemma alive_or_dead: "getPlayer w v \<noteq> None \<Longrightarrow> aliveIn v w \<or> deadIn v w"
  by (auto simp: aliveIn_def deadIn_def)

lemma not_alive_and_dead: "aliveIn v w \<Longrightarrow> deadIn v w \<Longrightarrow> False"
  by (auto simp: aliveIn_def deadIn_def split: option.splits)

lemma aliveIn_exists: "aliveIn v w \<Longrightarrow> getPlayer w v \<noteq> None"
  by (cases "getPlayer w v") (simp_all add: aliveIn_def)

lemma deadIn_exists: "deadIn v w \<Longrightarrow> getPlayer w v \<noteq> None"
  by (cases "getPlayer w v") (simp_all add: deadIn_def)

lemma undisturbed_obs:
  assumes "undisturbed v w w'"
  shows "aliveIn v w' = aliveIn v w" "deadIn v w' = deadIn v w" "hpOf v w' = hpOf v w"
    "deathsOf v w' = deathsOf v w" "deathEventsOf v w' = deathEventsOf v w"
    "queueOf v w' = queueOf v w" "(getPlayer w' v = None) = (getPlayer w v = None)"
proof -
  have m: "map_option statsMasked (getPlayer w' v) = map_option statsMasked (getPlayer w v)"
    using assms by (simp add: undisturbed_def)
  show "deathEventsOf v w' = deathEventsOf v w" "queueOf v w' = queueOf v w"
    using assms by (simp_all add: undisturbed_def)
  show n: "(getPlayer w' v = None) = (getPlayer w v = None)"
    using m by (cases "getPlayer w v"; cases "getPlayer w' v") simp_all
  have c: "(aliveIn v w' = aliveIn v w) \<and> (deadIn v w' = deadIn v w) \<and>
        hpOf v w' = hpOf v w \<and> deathsOf v w' = deathsOf v w"
  proof (cases "getPlayer w v")
    case None
    with n have "getPlayer w' v = None" by simp
    with None show ?thesis
      by (simp add: aliveIn_def deadIn_def hpOf_def deathsOf_def)
  next
    case (Some p)
    from undisturbed_player[OF assms Some] obtain p' where
      p': "getPlayer w' v = Some p'" "statsMasked p' = statsMasked p" by blast
    note f = statsMasked_fields(1,2,3)[OF p'(2)]
    show ?thesis
      by (simp add: aliveIn_def deadIn_def hpOf_def deathsOf_def Some p'(1) f)
  qed
  show "aliveIn v w' = aliveIn v w" "deadIn v w' = deadIn v w" "hpOf v w' = hpOf v w"
    "deathsOf v w' = deathsOf v w"
    using c by simp_all
qed

lemma hitStep_refl: "getPlayer w v \<noteq> None \<Longrightarrow> hitStep v w w"
  using alive_or_dead[of w v] by (auto simp: hitStep_def survived_def stillDead_def)

lemma undisturbed_hitStep:
  assumes "getPlayer w v \<noteq> None" "undisturbed v w w'"
  shows "hitStep v w w'"
  using alive_or_dead[OF assms(1)] undisturbed_obs[OF assms(2)]
  by (auto simp: hitStep_def survived_def stillDead_def)

lemma hitStep_exists: "hitStep v w w' \<Longrightarrow> getPlayer w' v \<noteq> None"
  unfolding hitStep_def survived_def died_def stillDead_def
  using deadIn_exists aliveIn_exists by blast

lemma hitStep_trans:
  assumes ab: "hitStep v a b" and bc: "hitStep v b c"
  shows "hitStep v a c"
proof -
  from ab consider (dead) "stillDead v a b" | (surv) "survived v a b" | (died) "died v a b"
    by (auto simp: hitStep_def)
  then show ?thesis
  proof cases
    case dead
    then have "deadIn v b" by (simp add: stillDead_def)
    with bc have "stillDead v b c"
      using not_alive_and_dead by (auto simp: hitStep_def survived_def died_def)
    with dead have "stillDead v a c" by (simp add: stillDead_def)
    then show ?thesis by (simp add: hitStep_def)
  next
    case surv
    then have ab': "aliveIn v b" by (simp add: survived_def)
    from bc ab' consider "survived v b c" | "died v b c"
      using not_alive_and_dead by (auto simp: hitStep_def stillDead_def)
    then show ?thesis
    proof cases
      case 1
      with surv have "survived v a c" by (simp add: survived_def)
      then show ?thesis by (simp add: hitStep_def)
    next
      case 2
      with surv have "died v a c" by (auto simp: survived_def died_def)
      then show ?thesis by (simp add: hitStep_def)
    qed
  next
    case died
    then have db: "deadIn v b" by (simp add: died_def)
    with bc have u: "stillDead v b c"
      using not_alive_and_dead by (auto simp: hitStep_def survived_def died_def)
    have "died v a c"
      using died u by (auto simp: died_def stillDead_def)
    then show ?thesis by (simp add: hitStep_def)
  qed
qed

lemma foldl_hitStep:
  assumes step: "\<And>u x. getPlayer u v \<noteq> None \<Longrightarrow> hitStep v u (f u x)"
    and ex: "getPlayer w v \<noteq> None"
  shows "hitStep v w (foldl f w xs)"
  using ex
proof (induction xs arbitrary: w)
  case Nil
  then show ?case by (simp add: hitStep_refl)
next
  case (Cons x xs)
  have 1: "hitStep v w (f w x)" using step Cons.prems by blast
  then have "getPlayer (f w x) v \<noteq> None" by (rule hitStep_exists)
  then have "hitStep v (f w x) (foldl f (f w x) xs)" by (rule Cons.IH)
  with 1 show ?case using hitStep_trans by simp
qed

text \<open>Writing back a record that is still alive and has the same death count.\<close>

lemma putPlayer_survived:
  assumes "getPlayer w (playerId p) = Some q" "alive q" "alive p" "deaths p = deaths q"
  shows "survived (playerId p) w (putPlayer p w)"
  using assms
  by (simp add: survived_def aliveIn_def deathsOf_def getPlayer_putPlayer deathEventsOf_def queueOf_def)

lemma putPlayer_hitStep:
  assumes ex: "getPlayer w v \<noteq> None"
    and q: "getPlayer w (playerId p) = Some q" "alive q" "alive p" "deaths p = deaths q"
  shows "hitStep v w (putPlayer p w)"
proof (cases "playerId p = v")
  case True
  then show ?thesis using putPlayer_survived[OF q] by (auto simp: hitStep_def)
next
  case False
  then show ?thesis using undisturbed_hitStep[OF ex undisturbed_putPlayer] by simp
qed

lemma takeDamage_survive:
  assumes "alive p" "\<not> fst (takeDamage a p)"
  shows "alive (snd (takeDamage a p))" "deaths (snd (takeDamage a p)) = deaths p"
    "kills (snd (takeDamage a p)) = kills p"
  using assms by (simp_all add: takeDamage_def Let_def split: if_splits)

lemma takeDamage_kill:
  assumes "fst (takeDamage a p)"
  shows "alive p" "\<not> alive (snd (takeDamage a p))" "hp (snd (takeDamage a p)) = 0"
    "deaths (snd (takeDamage a p)) = deaths p" "kills (snd (takeDamage a p)) = kills p"
proof -
  show al: "alive p" using assms by (cases "alive p") (simp_all add: takeDamage_def)
  have le: "max 0 (hp p - a) \<le> 0"
    using assms al by (cases "max 0 (hp p - a) \<le> 0") (simp_all add: takeDamage_def Let_def)
  then have z: "max 0 (hp p - a) = 0" by (simp add: max_def split: if_splits)
  show "\<not> alive (snd (takeDamage a p))" "hp (snd (takeDamage a p)) = 0"
    "deaths (snd (takeDamage a p)) = deaths p" "kills (snd (takeDamage a p)) = kills p"
    using al le z by (simp_all add: takeDamage_def Let_def)
qed

lemma kill_died:
  assumes q: "getPlayer w (playerId p) = Some q" "alive q"
    and p: "\<not> alive p" "hp p = 0" "deaths p = deaths q"
  shows "died (playerId p) w (handleDeath p k (putPlayer p w))"
proof -
  let ?w' = "handleDeath p k (putPlayer p w)"
  have g: "getPlayer ?w' (playerId p) =
      Some ((if playerId p = k then (\<lambda>q. q\<lparr>kills := kills q + 1\<rparr>) else id) (p\<lparr>deaths := deaths p + 1\<rparr>))"
    using q(1) by (simp add: getPlayer_handleDeath getPlayer_putPlayer)
  have "deadIn (playerId p) ?w'" "hpOf (playerId p) ?w' = 0"
    "deathsOf (playerId p) ?w' = deathsOf (playerId p) w + 1"
    using p q by (simp_all add: g deadIn_def hpOf_def deathsOf_def)
  moreover have "aliveIn (playerId p) w" using q by (simp add: aliveIn_def)
  moreover have "deathEventsOf (playerId p) ?w' =
      deathEventsOf (playerId p) w @ [DeathEvent (playerId p) k ''killed'' (position p)]"
    "queueOf (playerId p) ?w' = queueOf (playerId p) w @ [(playerId p, RESPAWN_DELAY)]"
    by (simp_all add: deathEventsOf_def queueOf_def)
  ultimately show ?thesis unfolding died_def by blast
qed

lemma kill_hitStep:
  assumes ex: "getPlayer w v \<noteq> None"
    and q: "getPlayer w (playerId p) = Some q" "alive q"
    and p: "\<not> alive p" "hp p = 0" "deaths p = deaths q"
  shows "hitStep v w (handleDeath p k (putPlayer p w))"
proof (cases "playerId p = v")
  case True
  then show ?thesis using kill_died[OF q p] by (auto simp: hitStep_def)
next
  case False
  have "undisturbed v w (handleDeath p k (putPlayer p w))"
    using undisturbed_trans[OF undisturbed_putPlayer[OF False] undisturbed_handleDeath[OF False]] .
  then show ?thesis using undisturbed_hitStep[OF ex] by simp
qed

lemma damage_hitStep:
  assumes ex: "getPlayer w v \<noteq> None"
    and q: "getPlayer w x = Some q" "alive q"
  shows "hitStep v w (if fst (takeDamage a q)
                      then handleDeath (snd (takeDamage a q)) k (putPlayer (snd (takeDamage a q)) w)
                      else putPlayer (snd (takeDamage a q)) w)"
proof -
  let ?p = "snd (takeDamage a q)"
  have idq: "playerId q = x" using q(1) by (rule getPlayer_id)
  have g: "getPlayer w (playerId ?p) = Some q" using q(1) idq by (simp add: takeDamage_id)
  show ?thesis
  proof (cases "fst (takeDamage a q)")
    case True
    from kill_hitStep[OF ex g q(2) takeDamage_kill(2,3,4)[OF True]] True show ?thesis by simp
  next
    case False
    from putPlayer_hitStep[OF ex g q(2) takeDamage_survive(1,2)[OF q(2) False]] False
    show ?thesis by simp
  qed
qed

lemma explodeStep_alt:
  "explodeStep proj d w x = w \<or>
   (\<exists>player. getPlayer w x = Some player \<and> alive player \<and>
      explodeStep proj d w x =
        (if fst (takeDamage (calculateSplashDamage (proj_position proj) (position player)) player)
         then handleDeath (snd (takeDamage (calculateSplashDamage (proj_position proj) (position player)) player))
                (shooterId proj)
                (putPlayer (snd (takeDamage (calculateSplashDamage (proj_position proj) (position player)) player)) w)
         else putPlayer (snd (takeDamage (calculateSplashDamage (proj_position proj) (position player)) player)) w))"
proof (cases "getPlayer w x")
  case None
  then show ?thesis by (simp add: explodeStep_def)
next
  case (Some player)
  show ?thesis
    unfolding explodeStep_def Some option.case Let_def
    by (simp add: case_prod_beta)
qed

lemma explodeStep_hitStep:
  assumes "getPlayer w v \<noteq> None"
  shows "hitStep v w (explodeStep proj d w x)"
proof -
  from explodeStep_alt[of proj d w x]
  consider "explodeStep proj d w x = w"
    | player where "getPlayer w x = Some player" "alive player"
      "explodeStep proj d w x =
        (if fst (takeDamage (calculateSplashDamage (proj_position proj) (position player)) player)
         then handleDeath (snd (takeDamage (calculateSplashDamage (proj_position proj) (position player)) player))
                (shooterId proj)
                (putPlayer (snd (takeDamage (calculateSplashDamage (proj_position proj) (position player)) player)) w)
         else putPlayer (snd (takeDamage (calculateSplashDamage (proj_position proj) (position player)) player)) w)"
    by blast
  then show ?thesis
  proof cases
    case 1
    then show ?thesis using hitStep_refl[OF assms] by simp
  next
    case 2
    show ?thesis unfolding 2(3) by (rule damage_hitStep[OF assms 2(1,2)])
  qed
qed

lemma handleProjectileExplode_hitStep:
  assumes ex: "getPlayer w v \<noteq> None"
  shows "hitStep v w (handleProjectileExplode proj d w)"
proof -
  let ?w0 = "pushEvent (ExplodeEvent (projId proj) (proj_position proj) SPLASH_RADIUS) w"
  have 0: "hitStep v w ?w0"
    by (rule undisturbed_hitStep[OF ex]) (rule undisturbed_pushEvent_other, simp)
  then have "getPlayer ?w0 v \<noteq> None" by (rule hitStep_exists)
  then have "hitStep v ?w0 (foldl (explodeStep proj d) ?w0 (map playerId (players w)))"
    by (intro foldl_hitStep explodeStep_hitStep)
  with 0 show ?thesis unfolding handleProjectileExplode_def by (rule hitStep_trans)
qed

lemma handleDirectHit_hitStep:
  assumes ex: "getPlayer w v \<noteq> None"
  shows "hitStep v w (handleDirectHit proj t w)"
proof -
  let ?b = "hitBase proj t w"
  have hb: "hitStep v w ?b" by (rule undisturbed_hitStep[OF ex hitBase_undisturbed])
  then have exb: "getPlayer ?b v \<noteq> None" by (rule hitStep_exists)
  show ?thesis
  proof (cases "getPlayer ?b t")
    case None
    then show ?thesis using hb by (simp add: handleDirectHit_alt)
  next
    case (Some target)
    let ?td = "takeDamage DIRECT_HIT_DAMAGE target"
    let ?m = "if fst ?td then handleDeath (snd ?td) (shooterId proj) (putPlayer (snd ?td) ?b)
              else putPlayer (snd ?td) ?b"
    have hm: "hitStep v ?b ?m"
    proof (cases "alive target")
      case True
      then show ?thesis using damage_hitStep[OF exb Some] by simp
    next
      case False
      then have "?td = (False, target)" by (rule takeDamage_dead)
      moreover have "undisturbed v ?b (putPlayer target ?b)"
        using Some getPlayer_id[OF Some] by (intro undisturbed_putPlayer_same) simp
      ultimately show ?thesis using undisturbed_hitStep[OF exb] by simp
    qed
    then have "getPlayer ?m v \<noteq> None" by (rule hitStep_exists)
    then have "hitStep v ?m (handleProjectileExplode (proj\<lparr>active := False\<rparr>) (Some t) ?m)"
      by (rule handleProjectileExplode_hitStep)
    with hb hm have "hitStep v w (handleProjectileExplode (proj\<lparr>active := False\<rparr>) (Some t) ?m)"
      using hitStep_trans by blast
    then show ?thesis using Some by (simp add: handleDirectHit_alt)
  qed
qed

lemma collideStep_hitStep: "getPlayer w v \<noteq> None \<Longrightarrow> hitStep v w (collideStep w i)"
  using collideStep_cases[of w i] handleDirectHit_hitStep[of w v] hitStep_refl[of w v] by auto

lemma checkAllCollisions_hitStep: "getPlayer w v \<noteq> None \<Longrightarrow> hitStep v w (checkAllCollisions w)"
  unfolding checkAllCollisions_def by (intro foldl_hitStep collideStep_hitStep)

subsection \<open>Steps that keep every vital sign\<close>






lemma lifeKept_killsTracked:
  assumes "getPlayer w s \<noteq> None" "lifeKept s w w'"
  shows "killsTracked s w w'"
  using assms by (simp add: killsTracked_def lifeKept_def)



lemma lifeKept_pushEvent:
  assumes "\<And>a b c d. e \<noteq> DeathEvent a b c d"
  shows "lifeKept v w (pushEvent e w)"
proof -
  have "\<not> isDeathOf v e" "\<not> isKillBy v e" using assms by (cases e; simp)+
  then show ?thesis
    by (simp add: lifeKept_def aliveIn_def hpOf_def deathsOf_def killsOf_def deathEventsOf_def
        queueOf_def killCount_def)
qed



subsection \<open>Kills are credited once per death event\<close>

lemma killsTracked_refl: "getPlayer w s \<noteq> None \<Longrightarrow> killsTracked s w w"
  by (simp add: killsTracked_def)

lemma killsTracked_trans: "killsTracked s a b \<Longrightarrow> killsTracked s b c \<Longrightarrow> killsTracked s a c"
  by (simp add: killsTracked_def)

lemma killsTracked_exists: "killsTracked s w w' \<Longrightarrow> getPlayer w' s \<noteq> None"
  by (simp add: killsTracked_def)

lemma foldl_killsTracked:
  assumes step: "\<And>u x. getPlayer u s \<noteq> None \<Longrightarrow> killsTracked s u (f u x)"
    and ex: "getPlayer w s \<noteq> None"
  shows "killsTracked s w (foldl f w xs)"
  using ex
proof (induction xs arbitrary: w)
  case Nil
  then show ?case by (simp add: killsTracked_refl)
next
  case (Cons x xs)
  have 1: "killsTracked s w (f w x)" using step Cons.prems by blast
  then have "killsTracked s (f w x) (foldl f (f w x) xs)"
    using Cons.IH killsTracked_exists by blast
  with 1 show ?case using killsTracked_trans by simp
qed

lemma killsTracked_handleDeath:
  assumes "getPlayer w s \<noteq> None"
  shows "killsTracked s w (handleDeath victim k w)"
proof -
  from assms obtain p where p: "getPlayer w s = Some p" by auto
  then have "playerId p = s" by (rule getPlayer_id)
  with p show ?thesis
    by (simp add: killsTracked_def killsOf_def killCount_def getPlayer_handleDeath)
qed

lemma damage_killsTracked:
  assumes ex: "getPlayer w s \<noteq> None"
    and q: "getPlayer w x = Some q"
  shows "killsTracked s w (if fst (takeDamage a q)
                      then handleDeath (snd (takeDamage a q)) k (putPlayer (snd (takeDamage a q)) w)
                      else putPlayer (snd (takeDamage a q)) w)"
proof -
  let ?p = "snd (takeDamage a q)"
  have idq: "playerId q = x" using q(1) by (rule getPlayer_id)
  have idp: "playerId ?p = x" using idq by (simp add: takeDamage_id)
  have kp: "kills ?p = kills q" by (simp add: takeDamage_def Let_def)
  have 1: "killsTracked s w (putPlayer ?p w)"
    using ex q idp kp
    by (cases "x = s") (auto simp: killsTracked_def killsOf_def killCount_def getPlayer_putPlayer)
  then have "killsTracked s (putPlayer ?p w) (handleDeath ?p k (putPlayer ?p w))"
    using killsTracked_handleDeath killsTracked_exists by blast
  with 1 have "killsTracked s w (handleDeath ?p k (putPlayer ?p w))" by (rule killsTracked_trans)
  with 1 show ?thesis by simp
qed

lemma explodeStep_killsTracked:
  assumes "getPlayer w s \<noteq> None"
  shows "killsTracked s w (explodeStep proj d w x)"
proof -
  from explodeStep_alt[of proj d w x]
  consider "explodeStep proj d w x = w"
    | player where "getPlayer w x = Some player" "alive player"
      "explodeStep proj d w x =
        (if fst (takeDamage (calculateSplashDamage (proj_position proj) (position player)) player)
         then handleDeath (snd (takeDamage (calculateSplashDamage (proj_position proj) (position player)) player))
                (shooterId proj)
                (putPlayer (snd (takeDamage (calculateSplashDamage (proj_position proj) (position player)) player)) w)
         else putPlayer (snd (takeDamage (calculateSplashDamage (proj_position proj) (position player)) player)) w)"
    by blast
  then show ?thesis
  proof cases
    case 1
    then show ?thesis using killsTracked_refl[OF assms] by simp
  next
    case 2
    show ?thesis unfolding 2(3) by (rule damage_killsTracked[OF assms 2(1)])
  qed
qed

lemma handleProjectileExplode_killsTracked:
  assumes ex: "getPlayer w s \<noteq> None"
  shows "killsTracked s w (handleProjectileExplode proj d w)"
proof -
  let ?w0 = "pushEvent (ExplodeEvent (projId proj) (proj_position proj) SPLASH_RADIUS) w"
  have 0: "killsTracked s w ?w0"
    by (rule lifeKept_killsTracked[OF ex]) (rule lifeKept_pushEvent, simp)
  then have "killsTracked s ?w0 (foldl (explodeStep proj d) ?w0 (map playerId (players w)))"
    using killsTracked_exists by (intro foldl_killsTracked explodeStep_killsTracked) blast+
  with 0 show ?thesis unfolding handleProjectileExplode_def by (rule killsTracked_trans)
qed

lemma hitBase_killsTracked:
  assumes ex: "getPlayer w s \<noteq> None"
  shows "killsTracked s w (hitBase proj t w)"
proof -
  from ex obtain p where p: "getPlayer w s = Some p" by auto
  then show ?thesis
    by (simp add: killsTracked_def killsOf_def killCount_def getPlayer_hitBase)
qed

lemma handleDirectHit_killsTracked:
  assumes ex: "getPlayer w s \<noteq> None"
  shows "killsTracked s w (handleDirectHit proj t w)"
proof -
  let ?b = "hitBase proj t w"
  have hb: "killsTracked s w ?b" by (rule hitBase_killsTracked[OF ex])
  then have exb: "getPlayer ?b s \<noteq> None" by (rule killsTracked_exists)
  show ?thesis
  proof (cases "getPlayer ?b t")
    case None
    then show ?thesis using hb by (simp add: handleDirectHit_alt)
  next
    case (Some target)
    let ?td = "takeDamage DIRECT_HIT_DAMAGE target"
    let ?m = "if fst ?td then handleDeath (snd ?td) (shooterId proj) (putPlayer (snd ?td) ?b)
              else putPlayer (snd ?td) ?b"
    have hm: "killsTracked s ?b ?m" by (rule damage_killsTracked[OF exb Some])
    then have "getPlayer ?m s \<noteq> None" by (rule killsTracked_exists)
    then have "killsTracked s ?m (handleProjectileExplode (proj\<lparr>active := False\<rparr>) (Some t) ?m)"
      by (rule handleProjectileExplode_killsTracked)
    with hb hm have "killsTracked s w (handleProjectileExplode (proj\<lparr>active := False\<rparr>) (Some t) ?m)"
      using killsTracked_trans by blast
    then show ?thesis using Some by (simp add: handleDirectHit_alt)
  qed
qed

lemma collideStep_killsTracked: "getPlayer w s \<noteq> None \<Longrightarrow> killsTracked s w (collideStep w i)"
  using collideStep_cases[of w i] handleDirectHit_killsTracked[of w s] killsTracked_refl[of w s] by auto

lemma checkAllCollisions_killsTracked:
  "getPlayer w s \<noteq> None \<Longrightarrow> killsTracked s w (checkAllCollisions w)"
  unfolding checkAllCollisions_def by (intro foldl_killsTracked collideStep_killsTracked)

subsection \<open>The phases of a tick\<close>


















subsection \<open>Movement and firing keep the vital signs\<close>






















subsection \<open>Spawn selection succeeds\<close>











subsection \<open>The respawn queue\<close>






lemma placed_simps [simp]:
  "pendingEvents (placed pid pos r sm rs w) = pendingEvents w"
  "respawnQueue (placed pid pos r sm rs w) = respawnQueue w"
  "gameMap (placed pid pos r sm rs w) = gameMap w"
  "randoms (placed pid pos r sm rs w) = rs"
  by (simp_all add: placed_def)













subsection \<open>One tick, seen from one combatant\<close>


lemma tickStart_simps [simp]:
  "players (tickStart w) = players w"
  "projectiles (tickStart w) = projectiles w"
  "pendingEvents (tickStart w) = []"
  "respawnQueue (tickStart w) = respawnQueue w"
  "gameMap (tickStart w) = gameMap w"
  "randoms (tickStart w) = randoms w"
  "spawnManager (tickStart w) = spawnManager w"
  by (simp_all add: tickStart_def)

lemma tickStart_obs [simp]:
  "getPlayer (tickStart w) v = getPlayer w v"
  "aliveIn v (tickStart w) = aliveIn v w"
  "deadIn v (tickStart w) = deadIn v w"
  "hpOf v (tickStart w) = hpOf v w"
  "deathsOf v (tickStart w) = deathsOf v w"
  "killsOf v (tickStart w) = killsOf v w"
  "queueOf v (tickStart w) = queueOf v w"
  "deathEventsOf v (tickStart w) = []"
  "killCount v (tickStart w) = 0"
  by (simp_all add: getPlayer_def aliveIn_def deadIn_def hpOf_def deathsOf_def killsOf_def
      queueOf_def deathEventsOf_def killCount_def)



text \<open>The decomposition of a tick.\<close>

lemma queueTicked_obs [simp]:
  "getPlayer (queueTicked dt w) v = getPlayer w v"
  "aliveIn v (queueTicked dt w) = aliveIn v w"
  "deadIn v (queueTicked dt w) = deadIn v w"
  "hpOf v (queueTicked dt w) = hpOf v w"
  "deathsOf v (queueTicked dt w) = deathsOf v w"
  "killsOf v (queueTicked dt w) = killsOf v w"
  "deathEventsOf v (queueTicked dt w) = deathEventsOf v w"
  "killCount v (queueTicked dt w) = killCount v w"
  "canSpawn (queueTicked dt w) = canSpawn w"
  by (simp_all add: queueTicked_def getPlayer_def aliveIn_def deadIn_def hpOf_def deathsOf_def
      killsOf_def deathEventsOf_def killCount_def canSpawn_def)
















subsection \<open>The example tick, evaluated\<close>









subsection \<open>Damage to a combatant that is not alive\<close>



end
